theory Spec2Isabelle
  imports Complex_Main "HOL-Library.Product_Lexorder" "HOL-Library.Char_ord"
    "HOL-Library.List_Lexorder"
begin

section \<open>Values: numpy float64 scalars\<close>

text \<open>
  The pipeline computes on numpy float64 arrays and scalars. A value is a finite number,
  one of the two infinities, or NaN. Arithmetic on numpy scalars never raises: a division
  by zero gives an infinity or NaN (with a warning). Finite values are real numbers and a
  single operation on finite values has its exact real result: the rounding of one
  operation, overflow and the sign of zero are not modelled. The array reductions
  \<open>mean\<close> and \<open>std\<close>, where rounding accumulates and decides whether a result is zero, are
  not computed by the model: they are parameters of it, as the scipy tests are.
\<close>

datatype npfloat = Finite real | PosInf | NegInf | NaN

fun isfinite :: "npfloat \<Rightarrow> bool" where
  "isfinite (Finite a) = True"
| "isfinite PosInf = False"
| "isfinite NegInf = False"
| "isfinite NaN = False"

fun fneg :: "npfloat \<Rightarrow> npfloat" where
  "fneg (Finite a) = Finite (- a)"
| "fneg PosInf = NegInf"
| "fneg NegInf = PosInf"
| "fneg NaN = NaN"

fun fadd :: "npfloat \<Rightarrow> npfloat \<Rightarrow> npfloat" where
  "fadd (Finite a) (Finite b) = Finite (a + b)"
| "fadd (Finite a) PosInf = PosInf"
| "fadd (Finite a) NegInf = NegInf"
| "fadd PosInf (Finite b) = PosInf"
| "fadd PosInf PosInf = PosInf"
| "fadd PosInf NegInf = NaN"
| "fadd NegInf (Finite b) = NegInf"
| "fadd NegInf NegInf = NegInf"
| "fadd NegInf PosInf = NaN"
| "fadd NaN y = NaN"
| "fadd x NaN = NaN"

definition fsub :: "npfloat \<Rightarrow> npfloat \<Rightarrow> npfloat" where
  "fsub x y = fadd x (fneg y)"

fun fmul :: "npfloat \<Rightarrow> npfloat \<Rightarrow> npfloat" where
  "fmul (Finite a) (Finite b) = Finite (a * b)"
| "fmul (Finite a) PosInf = (if a = 0 then NaN else if 0 < a then PosInf else NegInf)"
| "fmul (Finite a) NegInf = (if a = 0 then NaN else if 0 < a then NegInf else PosInf)"
| "fmul PosInf (Finite b) = (if b = 0 then NaN else if 0 < b then PosInf else NegInf)"
| "fmul NegInf (Finite b) = (if b = 0 then NaN else if 0 < b then NegInf else PosInf)"
| "fmul PosInf PosInf = PosInf"
| "fmul PosInf NegInf = NegInf"
| "fmul NegInf PosInf = NegInf"
| "fmul NegInf NegInf = PosInf"
| "fmul NaN y = NaN"
| "fmul x NaN = NaN"

fun fdiv :: "npfloat \<Rightarrow> npfloat \<Rightarrow> npfloat" where
  "fdiv (Finite a) (Finite b) =
     (if b \<noteq> 0 then Finite (a / b)
      else if a = 0 then NaN else if 0 < a then PosInf else NegInf)"
| "fdiv (Finite a) PosInf = Finite 0"
| "fdiv (Finite a) NegInf = Finite 0"
| "fdiv PosInf (Finite b) = (if 0 \<le> b then PosInf else NegInf)"
| "fdiv NegInf (Finite b) = (if 0 \<le> b then NegInf else PosInf)"
| "fdiv PosInf PosInf = NaN"
| "fdiv PosInf NegInf = NaN"
| "fdiv NegInf PosInf = NaN"
| "fdiv NegInf NegInf = NaN"
| "fdiv NaN y = NaN"
| "fdiv x NaN = NaN"

fun fsqrt :: "npfloat \<Rightarrow> npfloat" where
  "fsqrt (Finite a) = (if 0 \<le> a then Finite (sqrt a) else NaN)"
| "fsqrt PosInf = PosInf"
| "fsqrt NegInf = NaN"
| "fsqrt NaN = NaN"

text \<open>Comparisons: every comparison with NaN is false.\<close>

fun fgt :: "npfloat \<Rightarrow> npfloat \<Rightarrow> bool" where
  "fgt (Finite a) (Finite b) = (b < a)"
| "fgt (Finite a) PosInf = False"
| "fgt (Finite a) NegInf = True"
| "fgt PosInf (Finite b) = True"
| "fgt PosInf PosInf = False"
| "fgt PosInf NegInf = True"
| "fgt NegInf y = False"
| "fgt NaN y = False"
| "fgt x NaN = False"

fun fge :: "npfloat \<Rightarrow> npfloat \<Rightarrow> bool" where
  "fge (Finite a) (Finite b) = (b \<le> a)"
| "fge (Finite a) PosInf = False"
| "fge (Finite a) NegInf = True"
| "fge PosInf (Finite b) = True"
| "fge PosInf PosInf = True"
| "fge PosInf NegInf = True"
| "fge NegInf (Finite b) = False"
| "fge NegInf PosInf = False"
| "fge NegInf NegInf = True"
| "fge NaN y = False"
| "fge x NaN = False"

section \<open>numpy arrays\<close>

datatype error = ValueError | KeyError | RuntimeError

text \<open>
  \<open>a - b\<close> on one-dimensional arrays: elementwise when the lengths agree; an array of
  length 1 is broadcast against the other; any other pair of lengths raises
  ValueError (operands could not be broadcast together).
\<close>

definition np_sub :: "npfloat list \<Rightarrow> npfloat list \<Rightarrow> error + npfloat list" where
  "np_sub a b =
     (if length a = length b then Inr (map2 fsub a b)
      else if length a = 1 then Inr (map (\<lambda>y. fsub (hd a) y) b)
      else if length b = 1 then Inr (map (\<lambda>x. fsub x (hd b)) a)
      else Inl ValueError)"

section \<open>Data model\<close>

datatype group = PD | Control

datatype condition = NoStim | Stim

text \<open>One row of \<open>long_df\<close>.\<close>

record measurement =
  Parameter :: string
  Subject :: string
  Group :: group
  Condition :: condition
  Value :: npfloat

section \<open>Column parser\<close>

text \<open>\<open>s.startswith(p)\<close> and \<open>p in s\<close> on strings.\<close>

fun startswith :: "string \<Rightarrow> string \<Rightarrow> bool" where
  "startswith s [] = True"
| "startswith [] (p # ps) = False"
| "startswith (c # s) (p # ps) = (c = p \<and> startswith s ps)"

fun contains :: "string \<Rightarrow> string \<Rightarrow> bool" where
  "contains [] p = startswith [] p"
| "contains (c # s) p = (startswith (c # s) p \<or> contains s p)"

text \<open>\<open>col.replace(" ", "").replace("-", "")\<close>\<close>

definition strip_noise :: "string \<Rightarrow> string" where
  "strip_noise col = filter (\<lambda>c. c \<noteq> CHR ''-'') (filter (\<lambda>c. c \<noteq> CHR '' '') col)"

text \<open>\<open>c.split("_")[0]\<close>: the text before the first underscore (all of it when there is none).\<close>

definition split_first :: "string \<Rightarrow> string" where
  "split_first c = takeWhile (\<lambda>x. x \<noteq> CHR ''_'') c"

definition parse_column :: "string \<Rightarrow> (string \<times> group \<times> condition) option" where
  "parse_column col =
     (let c = strip_noise col in
      if \<not> (startswith c ''PD'' \<or> startswith c ''CO'') then None
      else
        let group = (if startswith c ''PD'' then PD else Control) in
        if contains c ''NoStim'' then Some (split_first c, group, NoStim)
        else if contains c ''Stim'' then Some (split_first c, group, Stim)
        else None)"

section \<open>Long dataframe\<close>

text \<open>
  The input frame is given by its data column names and its rows, each the parameter name
  (first column) and the values of the data columns. Every column that parses contributes
  one record per row; a column that does not parse is skipped.
\<close>

definition records_of_row :: "string list \<Rightarrow> string \<times> npfloat list \<Rightarrow> measurement list" where
  "records_of_row DATA_COLS row =
     concat (map (\<lambda>(col, v).
       case parse_column col of
         None \<Rightarrow> []
       | Some (subject, grp, condition) \<Rightarrow>
           [\<lparr>Parameter = fst row, Subject = subject, Group = grp,
             Condition = condition, Value = v\<rparr>]) (zip DATA_COLS (snd row)))"

definition build_long_df ::
  "string list \<Rightarrow> (string \<times> npfloat list) list \<Rightarrow> error + measurement list" where
  "build_long_df DATA_COLS rows =
     (let records = concat (map (records_of_row DATA_COLS) rows)
      in if records = [] then Inl RuntimeError else Inr records)"

section \<open>Paired statistics\<close>

text \<open>
  The library functions are parameters of the model. Of scipy: \<open>shapiro\<close> gives the p-value
  of the normality test, \<open>ttest_rel\<close> and \<open>wilcoxon\<close> give (statistic, p-value). Of numpy:
  \<open>np_mean xs\<close> is \<open>xs.mean()\<close> and \<open>np_std d xs\<close> is \<open>xs.std(ddof=d)\<close>, in float64
  arithmetic.
\<close>

record stats_lib =
  shapiro :: "npfloat list \<Rightarrow> npfloat"
  ttest_rel :: "npfloat list \<Rightarrow> npfloat list \<Rightarrow> npfloat \<times> npfloat"
  wilcoxon :: "npfloat list \<Rightarrow> npfloat list \<Rightarrow> npfloat \<times> npfloat"
  np_mean :: "npfloat list \<Rightarrow> npfloat"
  np_std :: "nat \<Rightarrow> npfloat list \<Rightarrow> npfloat"

datatype test = Paired_t_test | Wilcoxon_signed_rank

text \<open>\<open>data[data["Condition"] == cond]["Value"].values\<close>\<close>

definition values_of :: "condition \<Rightarrow> measurement list \<Rightarrow> npfloat list" where
  "values_of cond data = map Value (filter (\<lambda>m. Condition m = cond) data)"

text \<open>Cohen's dz of an array of differences: \<open>diff.mean() / diff.std(ddof=1)\<close>.\<close>

definition cohens_dz :: "stats_lib \<Rightarrow> npfloat list \<Rightarrow> npfloat" where
  "cohens_dz lib diff = fdiv (np_mean lib diff) (np_std lib 1 diff)"

text \<open>
  \<open>paired_stats\<close> returns \<open>Inr None\<close> for Python's \<open>return None\<close>, \<open>Inr (Some (test, stat, p, dz))\<close>
  for the tuple, and \<open>Inl e\<close> when the subtraction raises.
\<close>

definition paired_stats ::
  "stats_lib \<Rightarrow> measurement list \<Rightarrow> error + (test \<times> npfloat \<times> npfloat \<times> npfloat) option" where
  "paired_stats lib data =
     (let off = values_of NoStim data;
          on = values_of Stim data
      in if length off < 3 \<or> length on < 3 then Inr None
         else case np_sub on off of
           Inl e \<Rightarrow> Inl e
         | Inr diff \<Rightarrow>
             let p_norm = shapiro lib diff;
                 (test, stat, p) =
                   (if fgt p_norm (Finite 0.05)
                    then (Paired_t_test, ttest_rel lib on off)
                    else (Wilcoxon_signed_rank, wilcoxon lib on off));
                 dz = cohens_dz lib diff
             in Inr (Some (test, stat, p, dz)))"

section \<open>Batch runner\<close>

text \<open>One row of \<open>results_df\<close> before the correction.\<close>

record result_row =
  res_Parameter :: string
  res_Group :: group
  Test :: test
  Statistic :: npfloat
  p_raw :: npfloat
  Cohens_dz :: npfloat

text \<open>\<open>Series.unique()\<close>: the distinct values in order of first appearance.\<close>

definition unique :: "'a list \<Rightarrow> 'a list" where
  "unique xs = rev (remdups (rev xs))"

text \<open>\<open>long_df[(long_df["Parameter"] == param) & (long_df["Group"] == group)]\<close>\<close>

definition subset_of :: "string \<Rightarrow> group \<Rightarrow> measurement list \<Rightarrow> measurement list" where
  "subset_of param g long_df = filter (\<lambda>m. Parameter m = param \<and> Group m = g) long_df"

text \<open>
  The two nested loops visit the cells (param, group) in the order of \<open>cells_of\<close>;
  a cell without result is skipped, an exception ends the run.
\<close>

definition cells_of :: "measurement list \<Rightarrow> (string \<times> group) list" where
  "cells_of long_df = concat (map (\<lambda>p. [(p, PD), (p, Control)]) (unique (map Parameter long_df)))"

fun run_cells ::
  "stats_lib \<Rightarrow> measurement list \<Rightarrow> (string \<times> group) list \<Rightarrow> result_row list
     \<Rightarrow> error + result_row list" where
  "run_cells lib long_df [] results = Inr results"
| "run_cells lib long_df ((param, g) # cells) results =
     (case paired_stats lib (subset_of param g long_df) of
        Inl e \<Rightarrow> Inl e
      | Inr None \<Rightarrow> run_cells lib long_df cells results
      | Inr (Some (t, stat, p, dz)) \<Rightarrow>
          run_cells lib long_df cells
            (results @ [\<lparr>res_Parameter = param, res_Group = g, Test = t,
                         Statistic = stat, p_raw = p, Cohens_dz = dz\<rparr>]))"

definition run_statistics :: "stats_lib \<Rightarrow> measurement list \<Rightarrow> error + result_row list" where
  "run_statistics lib long_df = run_cells lib long_df (cells_of long_df) []"

section \<open>Holm correction\<close>

text \<open>
  \<open>multipletests(pvals, method="holm")\<close> of statsmodels, second component of its result:
  sort the p-values ascending, multiply the i-th smallest (from 0) by \<open>ntests - i\<close>, take the
  running maximum, cap at 1, and put the values back in the original order.
  \<open>np.argsort\<close> places NaN last; ties are taken in their original order.
\<close>

fun order_key :: "npfloat \<Rightarrow> nat \<times> real" where
  "order_key NegInf = (0, 0)"
| "order_key (Finite a) = (1, a)"
| "order_key PosInf = (2, 0)"
| "order_key NaN = (3, 0)"

definition argsort :: "npfloat list \<Rightarrow> nat list" where
  "argsort ps = sort_key (\<lambda>i. order_key (ps ! i)) [0..<length ps]"

text \<open>\<open>np.maximum\<close> propagates NaN.\<close>

definition np_maximum :: "npfloat \<Rightarrow> npfloat \<Rightarrow> npfloat" where
  "np_maximum a b = (if a = NaN \<or> b = NaN then NaN else if fge a b then a else b)"

fun accumulate_from :: "npfloat \<Rightarrow> npfloat list \<Rightarrow> npfloat list" where
  "accumulate_from m [] = []"
| "accumulate_from m (x # xs) = np_maximum m x # accumulate_from (np_maximum m x) xs"

fun maximum_accumulate :: "npfloat list \<Rightarrow> npfloat list" where
  "maximum_accumulate [] = []"
| "maximum_accumulate (x # xs) = x # accumulate_from x xs"

text \<open>\<open>out[idx] = vals\<close> with an index array.\<close>

fun scatter :: "nat list \<Rightarrow> 'a list \<Rightarrow> 'a list \<Rightarrow> 'a list" where
  "scatter (i # idx) (v # vals) out = scatter idx vals (out[i := v])"
| "scatter idx vals out = out"

text \<open>The corrected p-values in ascending order of the raw p-values (Holm's step order).\<close>

definition holm_sorted :: "npfloat list \<Rightarrow> npfloat list" where
  "holm_sorted ps =
     (let sortind = argsort ps;
          pvals = map (\<lambda>i. ps ! i) sortind;
          ntests = length pvals;
          raw = map2 fmul pvals (map (\<lambda>k. Finite (real k)) (rev [1..<Suc ntests]));
          acc = maximum_accumulate raw
      in map (\<lambda>x. if fgt x (Finite 1) then Finite 1 else x) acc)"

text \<open>
  The result array is allocated uninitialised (\<open>np.empty_like\<close>) and every slot is then
  written; the model starts from NaN.
\<close>

definition multipletests_holm :: "npfloat list \<Rightarrow> npfloat list" where
  "multipletests_holm ps = scatter (argsort ps) (holm_sorted ps) (replicate (length ps) NaN)"

text \<open>
  \<open>results_df\<close> with its \<open>p_holm\<close> column: each row paired with its corrected p-value.
  \<open>set_masked mask vals df\<close> is \<open>results_df.loc[mask, "p_holm"] = vals\<close>: the rows selected by
  the mask receive the values in order. (pandas raises when the number of values differs
  from the number of selected rows; \<open>multipletests\<close> returns as many values as it was
  given, so that never happens here, and the model leaves the remaining rows unchanged.)
\<close>

fun set_masked ::
  "(result_row \<Rightarrow> bool) \<Rightarrow> npfloat list \<Rightarrow> (result_row \<times> npfloat) list
     \<Rightarrow> (result_row \<times> npfloat) list" where
  "set_masked sel vals [] = []"
| "set_masked sel vals ((r, h) # rows) =
     (if sel r then
        (case vals of
           [] \<Rightarrow> (r, h) # set_masked sel [] rows
         | v # vals' \<Rightarrow> (r, v) # set_masked sel vals' rows)
      else (r, h) # set_masked sel vals rows)"

text \<open>One iteration of the correction loop, for the group \<open>grp\<close>.\<close>

definition holm_group :: "group \<Rightarrow> (result_row \<times> npfloat) list \<Rightarrow> (result_row \<times> npfloat) list" where
  "holm_group grp df =
     (let sel = (\<lambda>r. res_Group r = grp);
          pvals = map (\<lambda>(r, h). p_raw r) (filter (\<lambda>(r, h). sel r) df);
          p_corr = multipletests_holm pvals
      in set_masked sel p_corr df)"

text \<open>
  \<open>results_df["p_holm"] = np.nan\<close>, then one iteration for each group present in the table.
\<close>

definition holm_correction :: "result_row list \<Rightarrow> (result_row \<times> npfloat) list" where
  "holm_correction results =
     foldl (\<lambda>df grp. holm_group grp df) (map (\<lambda>r. (r, NaN)) results)
       (unique (map res_Group results))"

text \<open>The \<open>p_holm\<close> values of one group's rows, in table order.\<close>

definition p_holm_of :: "group \<Rightarrow> (result_row \<times> npfloat) list \<Rightarrow> npfloat list" where
  "p_holm_of g df = map snd (filter (\<lambda>(r, h). res_Group r = g) df)"

definition p_raw_of :: "group \<Rightarrow> result_row list \<Rightarrow> npfloat list" where
  "p_raw_of g results = map p_raw (filter (\<lambda>r. res_Group r = g) results)"

section \<open>Locomotion control\<close>

definition LOCOMOTION_PARAMS :: "string list" where
  "LOCOMOTION_PARAMS = [''MeanSpeed_Overall_cm/s'', ''Entries_ClosedArms'']"

text \<open>
  The body of the loop for one parameter, on its PD subset: \<open>Inr None\<close> is \<open>continue\<close>,
  \<open>Inr (Some (stat, p, dz))\<close> the appended row. There is no check of the lengths of the two
  arms: arms that broadcast (one of length 1) give a row. On arms that do not broadcast
  scipy raises ValueError inside \<open>ttest_rel\<close>, as the subtraction of the next line would;
  the model raises it at the subtraction.
\<close>

definition locomotion_step ::
  "stats_lib \<Rightarrow> measurement list \<Rightarrow> error + (npfloat \<times> npfloat \<times> npfloat) option" where
  "locomotion_step lib sub =
     (if sub = [] then Inr None
      else
        let off = values_of NoStim sub;
            on = values_of Stim sub;
            (stat, p) = ttest_rel lib on off
        in case np_sub on off of
             Inl e \<Rightarrow> Inl e
           | Inr diff \<Rightarrow> Inr (Some (stat, p, fdiv (np_mean lib diff) (np_std lib 1 diff))))"

fun locomotion_loop ::
  "stats_lib \<Rightarrow> measurement list \<Rightarrow> string list \<Rightarrow> (string \<times> npfloat \<times> npfloat \<times> npfloat) list
     \<Rightarrow> error + (string \<times> npfloat \<times> npfloat \<times> npfloat) list" where
  "locomotion_loop lib long_df [] locomotion_results = Inr locomotion_results"
| "locomotion_loop lib long_df (param # params) locomotion_results =
     (case locomotion_step lib (subset_of param PD long_df) of
        Inl e \<Rightarrow> Inl e
      | Inr None \<Rightarrow> locomotion_loop lib long_df params locomotion_results
      | Inr (Some (stat, p, dz)) \<Rightarrow>
          locomotion_loop lib long_df params (locomotion_results @ [(param, stat, p, dz)]))"

definition locomotion_control ::
  "stats_lib \<Rightarrow> measurement list \<Rightarrow> error + (string \<times> npfloat \<times> npfloat \<times> npfloat) list" where
  "locomotion_control lib long_df = locomotion_loop lib long_df LOCOMOTION_PARAMS []"

section \<open>Within-subject table\<close>

text \<open>
  The frame returned by \<open>pivot_table(index="Subject", columns="Condition", values="Value")
  .reset_index()\<close>: the subject column and one value column for each condition that occurs.
  The pivot itself is pandas code and a parameter of the model.
\<close>

record wide_table =
  wide_Subject :: "string list"
  wide_column :: "condition \<Rightarrow> npfloat list option"

record within_subject_table =
  ws_Subject :: "string list"
  ws_NoStim :: "npfloat list"
  ws_Stim :: "npfloat list"
  Delta_Stim_minus_NoStim :: "npfloat list"
  Percent_Change :: "npfloat list"
  ws_Parameter :: string

text \<open>
  The body of the loop for one parameter, on its PD subset. Reading a column that the
  pivot did not produce raises KeyError. Column arithmetic is elementwise and never raises.
\<close>

definition within_subject_step ::
  "(measurement list \<Rightarrow> wide_table) \<Rightarrow> string \<Rightarrow> measurement list
     \<Rightarrow> error + within_subject_table option" where
  "within_subject_step pivot_table param temp =
     (if temp = [] then Inr None
      else
        let wide = pivot_table temp in
        case wide_column wide Stim of
          None \<Rightarrow> Inl KeyError
        | Some stim \<Rightarrow>
            (case wide_column wide NoStim of
               None \<Rightarrow> Inl KeyError
             | Some nostim \<Rightarrow>
                 let delta = map2 fsub stim nostim;
                     percent = map (\<lambda>x. fmul x (Finite 100)) (map2 fdiv delta nostim)
                 in Inr (Some \<lparr>ws_Subject = wide_Subject wide, ws_NoStim = nostim,
                               ws_Stim = stim, Delta_Stim_minus_NoStim = delta,
                               Percent_Change = percent, ws_Parameter = param\<rparr>)))"

section \<open>Valid p-values\<close>

fun is_probability :: "npfloat \<Rightarrow> bool" where
  "is_probability (Finite x) = (0 \<le> x \<and> x \<le> 1)"
| "is_probability PosInf = False"
| "is_probability NegInf = False"
| "is_probability NaN = False"

section \<open>Example data\<close>

text \<open>
  Mean and standard deviation in exact arithmetic: the sum divided by the number of
  elements, and the square root of the sum of squared deviations from the mean divided by
  \<open>n - ddof\<close>. On arrays of small integers whose mean is an integer, as in the examples
  below, every step is exact in float64 and this is numpy's result; in general numpy's
  result differs by rounding.
\<close>

definition exact_sum :: "npfloat list \<Rightarrow> npfloat" where
  "exact_sum xs = foldl fadd (Finite 0) xs"

definition exact_mean :: "npfloat list \<Rightarrow> npfloat" where
  "exact_mean xs = fdiv (exact_sum xs) (Finite (real (length xs)))"

definition exact_std :: "nat \<Rightarrow> npfloat list \<Rightarrow> npfloat" where
  "exact_std ddof xs =
     (let m = exact_mean xs;
          dev = map (\<lambda>x. fsub x m) xs;
          sq = map (\<lambda>x. fmul x x) dev
      in fsqrt (fdiv (exact_sum sq) (Finite (real (length xs - ddof)))))"

text \<open>A stand-in for the scipy tests with fixed outcomes; the normality test passes.\<close>

definition example_lib :: stats_lib where
  "example_lib =
     \<lparr>shapiro = (\<lambda>d. Finite 0.5),
      ttest_rel = (\<lambda>a b. (Finite 6, Finite 0.004)),
      wilcoxon = (\<lambda>a b. (Finite 0, Finite 0.06)),
      np_mean = exact_mean,
      np_std = exact_std\<rparr>"

text \<open>The same with a failing normality test.\<close>

definition example_lib_nonnormal :: stats_lib where
  "example_lib_nonnormal = example_lib\<lparr>shapiro := (\<lambda>d. Finite 0.01)\<rparr>"

definition example_cols :: "string list" where
  "example_cols =
     [''PD1_NoStim'', ''PD1_Stim'', ''PD2_NoStim'', ''PD2_Stim'', ''PD3_NoStim'', ''PD3_Stim'']"

text \<open>Three PD subjects, two parameters; every difference of the first parameter is 1.\<close>

definition example_long_df :: "measurement list" where
  "example_long_df =
     concat (map (records_of_row example_cols)
       [(''Time_OpenArms'', map Finite [1, 2, 2, 3, 3, 4]),
        (''Entries_ClosedArms'', map Finite [5, 7, 6, 6, 4, 8])])"

text \<open>Two PD subjects only.\<close>

definition example_small_df :: "measurement list" where
  "example_small_df =
     records_of_row (take 4 example_cols) (''Entries_ClosedArms'', map Finite [5, 7, 6, 6])"

text \<open>Four baseline values against three intervention values.\<close>

definition example_unequal_df :: "measurement list" where
  "example_unequal_df =
     records_of_row (example_cols @ [''PD4_NoStim''])
       (''Time_OpenArms'', map Finite [1, 2, 2, 3, 3, 4, 9])"

text \<open>Three baseline values against two intervention values.\<close>

definition example_missing_stim_df :: "measurement list" where
  "example_missing_stim_df =
     records_of_row (take 5 example_cols) (''Entries_ClosedArms'', map Finite [5, 7, 6, 6, 4])"

text \<open>Three baseline values against one intervention value.\<close>

definition example_broadcast_df :: "measurement list" where
  "example_broadcast_df =
     records_of_row [''PD1_NoStim'', ''PD1_Stim'', ''PD2_NoStim'', ''PD3_NoStim'']
       (''Entries_ClosedArms'', map Finite [5, 7, 7, 3])"

definition example_row :: "string \<Rightarrow> group \<Rightarrow> real \<Rightarrow> result_row" where
  "example_row param g p =
     \<lparr>res_Parameter = param, res_Group = g, Test = Paired_t_test,
      Statistic = Finite 0, p_raw = Finite p, Cohens_dz = Finite 0\<rparr>"

definition example_results :: "result_row list" where
  "example_results =
     [example_row ''A'' PD 0.01, example_row ''A'' Control 0.5,
      example_row ''B'' PD 0.04, example_row ''B'' Control 0.2,
      example_row ''C'' PD 0.03]"

text \<open>The same table with the Control rows exchanged and their p-values changed.\<close>

definition example_results_changed :: "result_row list" where
  "example_results_changed =
     [example_row ''A'' PD 0.01, example_row ''B'' Control 0.9,
      example_row ''B'' PD 0.04, example_row ''A'' Control 0.001,
      example_row ''C'' PD 0.03]"

text \<open>A PD cell whose test gave no p-value, between two that did.\<close>

definition example_results_nan :: "result_row list" where
  "example_results_nan =
     [example_row ''A'' PD 0.01,
      (example_row ''B'' PD 0)\<lparr>Statistic := NaN, p_raw := NaN, Cohens_dz := NaN\<rparr>,
      example_row ''C'' PD 0.04, example_row ''A'' Control 0.5]"

text \<open>
  An instance of the pivot, after pandas: values that are NaN are left out; one row per
  subject that has a value left, in sorted order; each cell the mean of the subject's
  values for the condition (NaN when there is none); a condition with no value left has
  no column. The cell mean is exact, which for one value per cell is that value.
\<close>

definition example_pivot :: "measurement list \<Rightarrow> wide_table" where
  "example_pivot temp =
     (let present = filter (\<lambda>m. Value m \<noteq> NaN) temp;
          subjects = sort (remdups (map Subject present));
          cell = (\<lambda>c s. exact_mean
                    (map Value (filter (\<lambda>m. Subject m = s \<and> Condition m = c) present)))
      in \<lparr>wide_Subject = subjects,
          wide_column = (\<lambda>c. if list_ex (\<lambda>m. Condition m = c) present
                              then Some (map (cell c) subjects) else None)\<rparr>)"

text \<open>Two subjects, the first with baseline 0.\<close>

definition example_zero_baseline_df :: "measurement list" where
  "example_zero_baseline_df =
     records_of_row (take 4 example_cols) (''Time_OpenArms'', map Finite [0, 2, 4, 5])"

section \<open>Properties of the paired statistics\<close>

lemma paired_stats_equal_length:
  assumes "length (values_of NoStim data) = length (values_of Stim data)"
    and "3 \<le> length (values_of NoStim data)"
  shows "paired_stats lib data =
     (let off = values_of NoStim data; on = values_of Stim data; diff = map2 fsub on off in
      Inr (Some (if fgt (shapiro lib diff) (Finite 0.05)
                 then (Paired_t_test, fst (ttest_rel lib on off), snd (ttest_rel lib on off),
                       cohens_dz lib diff)
                 else (Wilcoxon_signed_rank, fst (wilcoxon lib on off), snd (wilcoxon lib on off),
                       cohens_dz lib diff))))"
  using assms by (simp add: paired_stats_def np_sub_def Let_def split: prod.splits)

lemma values_of_Subject_update:
  "values_of c (map (\<lambda>m. m\<lparr>Subject := f m\<rparr>) data) = values_of c data"
  by (induction data) (auto simp: values_of_def)

lemma paired_stats_Subject_update:
  "paired_stats lib (map (\<lambda>m. m\<lparr>Subject := f m\<rparr>) data) = paired_stats lib data"
  by (simp add: paired_stats_def values_of_Subject_update)

lemma paired_stats_values_only:
  assumes "values_of NoStim data = values_of NoStim data'"
    and "values_of Stim data = values_of Stim data'"
  shows "paired_stats lib data = paired_stats lib data'"
  using assms by (simp add: paired_stats_def)

lemmas example_eval =
  example_long_df_def example_small_df_def example_unequal_df_def example_zero_baseline_df_def
  example_missing_stim_df_def example_broadcast_df_def
  records_of_row_def example_cols_def parse_column_def strip_noise_def split_first_def
  values_of_def subset_of_def

text \<open>
  C1: when both arms of a cell have the same length, at least 3, \<open>paired_stats\<close> returns one
  result; its test is the paired t-test exactly when the Shapiro-Wilk p-value of the
  differences is greater than 0.05, and the Wilcoxon signed-rank test otherwise, with the
  statistic and p-value of the chosen test.
\<close>

theorem paired_stats_selects_by_normality:
  assumes "length (values_of NoStim data) = length (values_of Stim data)"
    and "3 \<le> length (values_of NoStim data)"
  shows "\<exists>t stat p dz. paired_stats lib data = Inr (Some (t, stat, p, dz)) \<and>
     (t = Paired_t_test \<longleftrightarrow>
        fgt (shapiro lib (map2 fsub (values_of Stim data) (values_of NoStim data))) (Finite 0.05)) \<and>
     (t = Wilcoxon_signed_rank \<longleftrightarrow>
        \<not> fgt (shapiro lib (map2 fsub (values_of Stim data) (values_of NoStim data))) (Finite 0.05)) \<and>
     (t = Paired_t_test \<longrightarrow>
        (stat, p) = ttest_rel lib (values_of Stim data) (values_of NoStim data)) \<and>
     (t = Wilcoxon_signed_rank \<longrightarrow>
        (stat, p) = wilcoxon lib (values_of Stim data) (values_of NoStim data))"
  using paired_stats_equal_length[OF assms, of lib] by (simp add: Let_def)

theorem paired_stats_selects_by_normality_witness:
  "length (values_of NoStim example_long_df) = length (values_of Stim example_long_df) \<and>
   3 \<le> length (values_of NoStim example_long_df) \<and>
   (\<exists>stat p dz. paired_stats example_lib example_long_df = Inr (Some (Paired_t_test, stat, p, dz))) \<and>
   (\<exists>stat p dz. paired_stats example_lib_nonnormal example_long_df
       = Inr (Some (Wilcoxon_signed_rank, stat, p, dz)))"
proof -
  have len: "length (values_of NoStim example_long_df) = length (values_of Stim example_long_df)"
    "3 \<le> length (values_of NoStim example_long_df)"
    by (simp_all add: example_eval)
  have "\<exists>stat p dz. paired_stats example_lib example_long_df = Inr (Some (Paired_t_test, stat, p, dz))"
    using paired_stats_selects_by_normality[OF len, of example_lib]
    by (auto simp: example_lib_def)
  moreover have "\<exists>stat p dz. paired_stats example_lib_nonnormal example_long_df
       = Inr (Some (Wilcoxon_signed_rank, stat, p, dz))"
    using paired_stats_selects_by_normality[OF len, of example_lib_nonnormal]
    by (auto simp: example_lib_def example_lib_nonnormal_def)
  ultimately show ?thesis using len by blast
qed

text \<open>
  C2: when either arm of a cell has fewer than 3 values, \<open>paired_stats\<close> returns None: no
  result and no exception. It is a function of its input, so every call gives the same.
\<close>

theorem paired_stats_small_sample_None:
  assumes "length (values_of NoStim data) < 3 \<or> length (values_of Stim data) < 3"
  shows "paired_stats lib data = Inr None"
  using assms by (auto simp add: paired_stats_def Let_def)

theorem paired_stats_small_sample_None_witness:
  "(length (values_of NoStim example_small_df) < 3 \<or> length (values_of Stim example_small_df) < 3) \<and>
   paired_stats example_lib example_small_df = Inr None"
proof -
  have "length (values_of NoStim example_small_df) < 3 \<or> length (values_of Stim example_small_df) < 3"
    by (simp add: example_eval)
  then show ?thesis using paired_stats_small_sample_None by blast
qed

text \<open>
  C9: \<open>paired_stats\<close> has no alignment by subject and no equal-length check. Its result
  depends only on the two arrays of values in their order of appearance: it is unchanged
  when the Subject of every record is replaced, and equal on any two inputs with the same
  two arrays. When both arms have at least 3 values but different lengths, the
  subtraction raises instead of returning None.
\<close>

theorem paired_stats_unequal_length_raises:
  "(\<forall>f. paired_stats lib (map (\<lambda>m. m\<lparr>Subject := f m\<rparr>) data) = paired_stats lib data) \<and>
   (\<forall>data'. values_of NoStim data' = values_of NoStim data \<and>
            values_of Stim data' = values_of Stim data \<longrightarrow>
            paired_stats lib data' = paired_stats lib data) \<and>
   (3 \<le> length (values_of NoStim data) \<and> 3 \<le> length (values_of Stim data) \<and>
    length (values_of NoStim data) \<noteq> length (values_of Stim data) \<longrightarrow>
      paired_stats lib data = Inl ValueError)"
proof -
  have "3 \<le> length (values_of NoStim data) \<and> 3 \<le> length (values_of Stim data) \<and>
    length (values_of NoStim data) \<noteq> length (values_of Stim data) \<longrightarrow>
      paired_stats lib data = Inl ValueError"
    by (auto simp add: paired_stats_def Let_def np_sub_def)
  then show ?thesis
    using paired_stats_Subject_update paired_stats_values_only by blast
qed

text \<open>
  In the example the subjects are exchanged between the records; the result is the same.
\<close>

theorem paired_stats_unequal_length_raises_witness:
  "3 \<le> length (values_of NoStim example_unequal_df) \<and>
   3 \<le> length (values_of Stim example_unequal_df) \<and>
   length (values_of NoStim example_unequal_df) \<noteq> length (values_of Stim example_unequal_df) \<and>
   paired_stats example_lib example_unequal_df = Inl ValueError \<and>
   paired_stats example_lib
     (map (\<lambda>m. m\<lparr>Subject := (if Subject m = ''PD1'' then ''PD3'' else ''PD1'')\<rparr>) example_long_df)
     = paired_stats example_lib example_long_df"
proof -
  have h: "3 \<le> length (values_of NoStim example_unequal_df)"
    "3 \<le> length (values_of Stim example_unequal_df)"
    "length (values_of NoStim example_unequal_df) \<noteq> length (values_of Stim example_unequal_df)"
    by (simp_all add: example_eval)
  have raises: "paired_stats example_lib example_unequal_df = Inl ValueError"
    using paired_stats_unequal_length_raises[of example_lib example_unequal_df] h by simp
  have "\<forall>f. paired_stats example_lib (map (\<lambda>m. m\<lparr>Subject := f m\<rparr>) example_long_df)
          = paired_stats example_lib example_long_df"
    using paired_stats_unequal_length_raises[of example_lib example_long_df] by (rule conjunct1)
  then have "paired_stats example_lib
     (map (\<lambda>m. m\<lparr>Subject := (if Subject m = ''PD1'' then ''PD3'' else ''PD1'')\<rparr>) example_long_df)
     = paired_stats example_lib example_long_df"
    by (rule spec)
  then show ?thesis using h raises by simp
qed

text \<open>The example table through the record builder and the batch runner.\<close>

lemma example_run_statistics: "run_statistics example_lib example_long_df =
  Inr [\<lparr>res_Parameter = ''Time_OpenArms'', res_Group = PD, Test = Paired_t_test,
         Statistic = Finite 6, p_raw = Finite 0.004, Cohens_dz = PosInf\<rparr>,
       \<lparr>res_Parameter = ''Entries_ClosedArms'', res_Group = PD, Test = Paired_t_test,
         Statistic = Finite 6, p_raw = Finite 0.004, Cohens_dz = Finite 1\<rparr>]"
  by (simp add: run_statistics_def cells_of_def unique_def example_eval paired_stats_def
      example_lib_def np_sub_def cohens_dz_def exact_mean_def exact_std_def exact_sum_def fsub_def)

lemma example_build_long_df: "build_long_df example_cols
       [(''Time_OpenArms'', map Finite [1, 2, 2, 3, 3, 4]),
        (''Entries_ClosedArms'', map Finite [5, 7, 6, 6, 4, 8])] = Inr example_long_df"
  by (simp add: build_long_df_def example_eval)

lemma example_unparsed_columns: "build_long_df [''XYZ_99'', ''Notes''] [(''Time_OpenArms'', map Finite [1, 2])] = Inl RuntimeError"
  by (simp add: build_long_df_def example_eval)

section \<open>Properties of the Holm correction\<close>

lemma fge_trans: "fge a b \<Longrightarrow> fge b c \<Longrightarrow> fge a c"
  by (cases a; cases b; cases c) auto

lemma fge_refl: "a \<noteq> NaN \<Longrightarrow> fge a a"
  by (cases a) auto

lemma fge_total: "a \<noteq> NaN \<Longrightarrow> b \<noteq> NaN \<Longrightarrow> \<not> fge a b \<Longrightarrow> fge b a"
  by (cases a; cases b) auto

lemma fge_not_NaN: "fge a b \<Longrightarrow> a \<noteq> NaN \<and> b \<noteq> NaN"
  by (cases a; cases b) auto

lemma np_maximum_ge:
  assumes "a \<noteq> NaN" "b \<noteq> NaN"
  shows "fge (np_maximum a b) a" "fge (np_maximum a b) b" "np_maximum a b \<noteq> NaN"
  using assms by (auto simp: np_maximum_def fge_refl fge_total)

lemma length_accumulate_from: "length (accumulate_from m xs) = length xs"
  by (induction xs arbitrary: m) auto

lemma length_maximum_accumulate: "length (maximum_accumulate xs) = length xs"
  by (cases xs) (auto simp: length_accumulate_from)

lemma accumulate_from_sorted:
  "m \<noteq> NaN \<Longrightarrow> NaN \<notin> set xs \<Longrightarrow> sorted_wrt (\<lambda>a b. fge b a) (m # accumulate_from m xs)"
proof (induction xs arbitrary: m)
  case Nil
  then show ?case by simp
next
  case (Cons x xs)
  let ?m = "np_maximum m x"
  have x: "x \<noteq> NaN" using Cons.prems by auto
  have m': "?m \<noteq> NaN" "fge ?m m" using Cons.prems(1) x by (auto simp: np_maximum_ge)
  have ih: "sorted_wrt (\<lambda>a b. fge b a) (?m # accumulate_from ?m xs)"
    using Cons.IH[OF m'(1)] Cons.prems by simp
  then have "\<forall>y\<in>set (accumulate_from ?m xs). fge y m"
    using m'(2) by (auto intro: fge_trans)
  with ih m' show ?case by simp
qed

lemma accumulate_from_ge:
  "m \<noteq> NaN \<Longrightarrow> NaN \<notin> set xs \<Longrightarrow> k < length xs \<Longrightarrow> fge (accumulate_from m xs ! k) (xs ! k)"
proof (induction xs arbitrary: m k)
  case Nil
  then show ?case by simp
next
  case (Cons x xs)
  have x: "x \<noteq> NaN" "NaN \<notin> set xs" using Cons.prems by auto
  show ?case
  proof (cases k)
    case 0
    then show ?thesis using Cons.prems x by (simp add: np_maximum_ge)
  next
    case (Suc j)
    then show ?thesis using Cons.prems x Cons.IH[of "np_maximum m x" j] by (simp add: np_maximum_ge)
  qed
qed

lemma maximum_accumulate_sorted:
  "NaN \<notin> set xs \<Longrightarrow> sorted_wrt (\<lambda>a b. fge b a) (maximum_accumulate xs)"
  using accumulate_from_sorted by (cases xs) auto

lemma maximum_accumulate_ge:
  "NaN \<notin> set xs \<Longrightarrow> k < length xs \<Longrightarrow> fge (maximum_accumulate xs ! k) (xs ! k)"
  using accumulate_from_ge by (cases xs; cases k) (auto simp: fge_refl)

lemma length_argsort: "length (argsort ps) = length ps"
  by (simp add: argsort_def)

lemma set_argsort: "set (argsort ps) = {0..<length ps}"
  by (simp add: argsort_def)

lemma distinct_argsort: "distinct (argsort ps)"
  by (simp add: argsort_def)

lemma length_holm_sorted: "length (holm_sorted ps) = length ps"
  by (simp add: holm_sorted_def Let_def length_maximum_accumulate length_argsort del: upt_Suc)

lemma length_scatter: "length (scatter idx vals out) = length out"
  by (induction idx vals out rule: scatter.induct) auto

lemma scatter_nth_other:
  "j \<notin> set idx \<Longrightarrow> scatter idx vals out ! j = out ! j"
  by (induction idx vals out rule: scatter.induct) auto

lemma scatter_nth:
  "distinct idx \<Longrightarrow> length idx = length vals \<Longrightarrow> \<forall>i\<in>set idx. i < length out \<Longrightarrow> k < length idx
     \<Longrightarrow> scatter idx vals out ! (idx ! k) = vals ! k"
proof (induction idx vals out arbitrary: k rule: scatter.induct)
  case (1 i idx v vals out)
  show ?case
  proof (cases k)
    case 0
    then show ?thesis using "1.prems" by (simp add: scatter_nth_other)
  next
    case (Suc j)
    then show ?thesis using "1.prems" "1.IH"[of j] by simp
  qed
qed auto

lemma length_multipletests_holm: "length (multipletests_holm ps) = length ps"
  by (simp add: multipletests_holm_def length_scatter)

lemma multipletests_holm_nth:
  "k < length ps \<Longrightarrow> multipletests_holm ps ! (argsort ps ! k) = holm_sorted ps ! k"
  unfolding multipletests_holm_def
  by (rule scatter_nth) (auto simp: distinct_argsort length_argsort length_holm_sorted set_argsort)

lemma is_probabilityE: "is_probability p \<Longrightarrow> \<exists>x. p = Finite x \<and> 0 \<le> x \<and> x \<le> 1"
  by (cases p) auto

lemma order_key_le: "a \<noteq> NaN \<Longrightarrow> b \<noteq> NaN \<Longrightarrow> order_key a \<le> order_key b \<Longrightarrow> fge b a"
  by (cases a; cases b) auto

lemma weights_nth: "k < n \<Longrightarrow> rev [Suc 0..<Suc n] ! k = n - k"
  by (simp add: rev_nth del: upt_Suc)

lemma fmul_weight_not_NaN: "p \<noteq> NaN \<Longrightarrow> 0 < k \<Longrightarrow> fmul p (Finite (real k)) \<noteq> NaN"
  by (cases p) auto

lemma set_masked_rows: "map fst (set_masked sel vals df) = map fst df"
  by (induction df arbitrary: vals) (auto split: list.splits)

lemma set_masked_other:
  "(\<And>r. q r \<Longrightarrow> \<not> sel r) \<Longrightarrow>
     filter (\<lambda>(r, h). q r) (set_masked sel vals df) = filter (\<lambda>(r, h). q r) df"
  by (induction df arbitrary: vals) (auto split: list.splits)

lemma set_masked_own:
  "length vals = length (filter (\<lambda>(r, h). sel r) df) \<Longrightarrow>
     map snd (filter (\<lambda>(r, h). sel r) (set_masked sel vals df)) = vals"
  by (induction df arbitrary: vals) (auto split: list.splits)

lemma raws_of_rows:
  "map (\<lambda>(r, h). p_raw r) (filter (\<lambda>(r, h). res_Group r = g) df) = p_raw_of g (map fst df)"
  by (induction df) (auto simp: p_raw_of_def)

lemma holm_group_rows: "map fst (holm_group grp df) = map fst df"
  by (simp add: holm_group_def Let_def set_masked_rows)

lemma holm_group_other: "g \<noteq> grp \<Longrightarrow> p_holm_of g (holm_group grp df) = p_holm_of g df"
  unfolding p_holm_of_def holm_group_def Let_def
  by (subst set_masked_other) auto

lemma holm_group_own:
  "p_holm_of g (holm_group g df) = multipletests_holm (p_raw_of g (map fst df))"
  unfolding p_holm_of_def holm_group_def Let_def
proof (subst set_masked_own)
  show "length (multipletests_holm (map (\<lambda>(r, h). p_raw r) (filter (\<lambda>(r, h). res_Group r = g) df)))
      = length (filter (\<lambda>(r, h). res_Group r = g) df)"
    by (simp add: length_multipletests_holm)
  show "multipletests_holm (map (\<lambda>(r, h). p_raw r) (filter (\<lambda>(r, h). res_Group r = g) df))
      = multipletests_holm (p_raw_of g (map fst df))"
    by (simp only: raws_of_rows)
qed

lemma holm_loop_group:
  "p_holm_of g (foldl (\<lambda>df grp. holm_group grp df) df gs) =
     (if g \<in> set gs then multipletests_holm (p_raw_of g (map fst df)) else p_holm_of g df)"
proof (induction gs arbitrary: df)
  case Nil
  then show ?case by simp
next
  case (Cons grp gs)
  show ?case
    using Cons.IH[of "holm_group grp df"]
    by (auto simp: holm_group_rows holm_group_own holm_group_other)
qed

lemma set_unique: "set (unique xs) = set xs"
  by (simp add: unique_def)

lemma multipletests_holm_Nil: "multipletests_holm [] = []"
  using length_multipletests_holm[of "[]"] by simp

lemma holm_correction_group:
  "p_holm_of g (holm_correction results) = multipletests_holm (p_raw_of g results)"
proof (cases "g \<in> set (map res_Group results)")
  case True
  then show ?thesis
    by (simp add: holm_correction_def holm_loop_group set_unique comp_def)
next
  case False
  then have "filter (\<lambda>r. res_Group r = g) results = []"
    by (auto simp: filter_empty_conv)
  then have "p_raw_of g results = []" "p_holm_of g (map (\<lambda>r. (r, NaN)) results) = []"
    by (simp_all add: p_raw_of_def p_holm_of_def filter_map comp_def)
  with False show ?thesis
    by (simp add: holm_correction_def holm_loop_group set_unique multipletests_holm_Nil)
qed

lemmas holm_eval =
  holm_correction_def holm_group_def p_holm_of_def p_raw_of_def unique_def
  multipletests_holm_def holm_sorted_def argsort_def np_maximum_def upt_rec
  example_results_def example_results_changed_def example_row_def

text \<open>
  C3: the corrected p-values of a group depend only on that group's own rows. Two result
  tables that agree on the rows of group \<open>g\<close> give the same \<open>p_holm\<close> values for \<open>g\<close>,
  however the rows of the other group are permuted, changed, added or removed.
\<close>

theorem holm_groups_independent:
  assumes "filter (\<lambda>r. res_Group r = g) results = filter (\<lambda>r. res_Group r = g) results'"
  shows "p_holm_of g (holm_correction results) = p_holm_of g (holm_correction results')"
  using assms by (simp add: holm_correction_group p_raw_of_def)

theorem holm_groups_independent_witness:
  "filter (\<lambda>r. res_Group r = PD) example_results
     = filter (\<lambda>r. res_Group r = PD) example_results_changed \<and>
   p_holm_of PD (holm_correction example_results)
     = p_holm_of PD (holm_correction example_results_changed) \<and>
   p_holm_of Control (holm_correction example_results)
     \<noteq> p_holm_of Control (holm_correction example_results_changed)"
proof -
  have h: "filter (\<lambda>r. res_Group r = PD) example_results
     = filter (\<lambda>r. res_Group r = PD) example_results_changed"
    by (simp add: example_results_def example_results_changed_def example_row_def)
  have "p_holm_of Control (holm_correction example_results)
     \<noteq> p_holm_of Control (holm_correction example_results_changed)"
    by (simp add: holm_eval)
  then show ?thesis using h holm_groups_independent[OF h] by blast
qed

lemma take_accumulate_from: "take n (accumulate_from m xs) = accumulate_from m (take n xs)"
  by (induction xs arbitrary: m n) (auto simp: take_Cons split: nat.splits)

lemma take_maximum_accumulate: "take n (maximum_accumulate xs) = maximum_accumulate (take n xs)"
  by (cases xs; cases n) (auto simp: take_accumulate_from)

lemma prefix_not_NaN:
  assumes "k < length xs" and "\<forall>j\<le>k. xs ! j \<noteq> NaN"
  shows "NaN \<notin> set (take (Suc k) xs)"
proof
  assume "NaN \<in> set (take (Suc k) xs)"
  then obtain j where "j < length (take (Suc k) xs)" "take (Suc k) xs ! j = NaN"
    by (auto simp: in_set_conv_nth)
  then have "j \<le> k" "xs ! j = NaN" by auto
  with assms(2) show False by blast
qed

lemma maximum_accumulate_prefix_ge:
  assumes "k < length xs" and "\<forall>j\<le>k. xs ! j \<noteq> NaN"
  shows "fge (maximum_accumulate xs ! k) (xs ! k)"
proof -
  have "fge (maximum_accumulate (take (Suc k) xs) ! k) (take (Suc k) xs ! k)"
    using prefix_not_NaN[OF assms] assms(1) by (intro maximum_accumulate_ge) simp_all
  then have "fge (take (Suc k) (maximum_accumulate xs) ! k) (take (Suc k) xs ! k)"
    by (simp only: take_maximum_accumulate)
  then show ?thesis by simp
qed

lemma maximum_accumulate_prefix_mono:
  assumes "j \<le> k" and "k < length xs" and "\<forall>i\<le>k. xs ! i \<noteq> NaN"
  shows "fge (maximum_accumulate xs ! k) (maximum_accumulate xs ! j)"
proof (cases "j = k")
  case True
  have "maximum_accumulate xs ! k \<noteq> NaN"
    using maximum_accumulate_prefix_ge[OF assms(2,3)] fge_not_NaN by blast
  then show ?thesis using True by (simp add: fge_refl)
next
  case False
  then have lt: "j < k" using assms(1) by simp
  have "sorted_wrt (\<lambda>a b. fge b a) (maximum_accumulate (take (Suc k) xs))"
    using prefix_not_NaN[OF assms(2,3)] by (rule maximum_accumulate_sorted)
  then have sw: "sorted_wrt (\<lambda>a b. fge b a) (take (Suc k) (maximum_accumulate xs))"
    by (simp only: take_maximum_accumulate)
  have klen: "k < length (take (Suc k) (maximum_accumulate xs))"
    using assms(2) by (simp add: length_maximum_accumulate)
  have "fge (take (Suc k) (maximum_accumulate xs) ! k) (take (Suc k) (maximum_accumulate xs) ! j)"
    using sorted_wrt_nth_less[OF sw lt klen] by simp
  then show ?thesis using lt by simp
qed

lemma np_maximum_NaN: "np_maximum a NaN = NaN"
  by (simp add: np_maximum_def)

lemma accumulate_from_NaN:
  "k < length xs \<Longrightarrow> xs ! k = NaN \<Longrightarrow> accumulate_from m xs ! k = NaN"
proof (induction xs arbitrary: m k)
  case Nil
  then show ?case by simp
next
  case (Cons x xs)
  then show ?case by (cases k) (simp_all add: np_maximum_NaN)
qed

lemma maximum_accumulate_NaN:
  "k < length xs \<Longrightarrow> xs ! k = NaN \<Longrightarrow> maximum_accumulate xs ! k = NaN"
  using accumulate_from_NaN by (cases xs; cases k) auto

lemma order_key_NaN_le: "order_key NaN \<le> order_key b \<Longrightarrow> b = NaN"
  by (cases b) auto

lemma sorted_pvals_keys: "sorted (map (\<lambda>i. order_key (ps ! i)) (argsort ps))"
  unfolding argsort_def by (rule sorted_sort_key)

lemma sorted_pvals_key_mono:
  assumes "k \<le> l" and "l < length ps"
  shows "order_key (ps ! (argsort ps ! k)) \<le> order_key (ps ! (argsort ps ! l))"
  using sorted_nth_mono[OF sorted_pvals_keys[of ps], of k l] assms
  by (simp add: length_argsort)

lemma NaN_sorted_last:
  assumes "k \<le> l" and "l < length ps" and "ps ! (argsort ps ! l) \<noteq> NaN"
  shows "ps ! (argsort ps ! k) \<noteq> NaN"
  using sorted_pvals_key_mono[OF assms(1,2)] assms(3) order_key_NaN_le by force

lemma sorted_pvals_ascending:
  assumes "k \<le> l" and "l < length ps" and "ps ! (argsort ps ! l) \<noteq> NaN"
  shows "fge (ps ! (argsort ps ! l)) (ps ! (argsort ps ! k))"
  using order_key_le[OF NaN_sorted_last[OF assms] assms(3) sorted_pvals_key_mono[OF assms(1,2)]] .

lemma holm_raw_nth:
  assumes "k < length ps"
  shows "map2 fmul (map (\<lambda>i. ps ! i) (argsort ps))
           (map (\<lambda>k. Finite (real k)) (rev [1..<Suc (length (map (\<lambda>i. ps ! i) (argsort ps)))])) ! k
         = fmul (ps ! (argsort ps ! k)) (Finite (real (length ps - k)))"
  using assms by (simp add: length_argsort weights_nth del: upt_Suc)

lemma holm_raw_prefix_not_NaN:
  assumes "l < length ps" and "ps ! (argsort ps ! l) \<noteq> NaN"
  shows "\<forall>j\<le>l. map2 fmul (map (\<lambda>i. ps ! i) (argsort ps))
           (map (\<lambda>k. Finite (real k)) (rev [1..<Suc (length (map (\<lambda>i. ps ! i) (argsort ps)))])) ! j
         \<noteq> NaN"
proof (intro allI impI)
  fix j assume j: "j \<le> l"
  then have lt: "j < length ps" using assms(1) by simp
  have "ps ! (argsort ps ! j) \<noteq> NaN" using NaN_sorted_last[OF j assms] .
  moreover have "0 < length ps - j" using lt by simp
  ultimately show "map2 fmul (map (\<lambda>i. ps ! i) (argsort ps))
           (map (\<lambda>k. Finite (real k)) (rev [1..<Suc (length (map (\<lambda>i. ps ! i) (argsort ps)))])) ! j
         \<noteq> NaN"
    unfolding holm_raw_nth[OF lt] by (rule fmul_weight_not_NaN)
qed

lemma holm_sorted_nth:
  assumes "k < length ps"
  shows "holm_sorted ps ! k =
     (let y = maximum_accumulate (map2 fmul (map (\<lambda>i. ps ! i) (argsort ps))
           (map (\<lambda>k. Finite (real k)) (rev [1..<Suc (length (map (\<lambda>i. ps ! i) (argsort ps)))]))) ! k
      in if fgt y (Finite 1) then Finite 1 else y)"
proof -
  let ?raw = "map2 fmul (map (\<lambda>i. ps ! i) (argsort ps))
           (map (\<lambda>k. Finite (real k)) (rev [1..<Suc (length (map (\<lambda>i. ps ! i) (argsort ps)))]))"
  have "holm_sorted ps = map (\<lambda>y. if fgt y (Finite 1) then Finite 1 else y) (maximum_accumulate ?raw)"
    unfolding holm_sorted_def Let_def by (rule refl)
  moreover have "length ?raw = length ps" by (simp add: length_argsort del: upt_Suc)
  then have "k < length (maximum_accumulate ?raw)"
    using assms by (simp only: length_maximum_accumulate)
  ultimately show ?thesis by (simp only: nth_map Let_def)
qed

lemma cap_mono:
  "fge b a \<Longrightarrow> fge (if fgt b (Finite 1) then Finite 1 else b) (if fgt a (Finite 1) then Finite 1 else a)"
  by (cases a; cases b) auto

lemma cap_ge: "fge y (Finite x) \<Longrightarrow> x \<le> 1 \<Longrightarrow> fge (if fgt y (Finite 1) then Finite 1 else y) (Finite x)"
  by (cases y) auto

lemma holm_sorted_valid_ge:
  assumes "k < length ps" and "is_probability (ps ! (argsort ps ! k))"
  shows "fge (holm_sorted ps ! k) (ps ! (argsort ps ! k))"
proof -
  let ?raw = "map2 fmul (map (\<lambda>i. ps ! i) (argsort ps))
           (map (\<lambda>k. Finite (real k)) (rev [1..<Suc (length (map (\<lambda>i. ps ! i) (argsort ps)))]))"
  obtain x where x: "ps ! (argsort ps ! k) = Finite x" "0 \<le> x" "x \<le> 1"
    using is_probabilityE[OF assms(2)] by blast
  have nn: "ps ! (argsort ps ! k) \<noteq> NaN" using x(1) by simp
  have len: "length ?raw = length ps" by (simp add: length_argsort del: upt_Suc)
  have rawk: "?raw ! k = Finite (x * real (length ps - k))"
    unfolding holm_raw_nth[OF assms(1)] x(1) by simp
  have "1 \<le> real (length ps - k)" using assms(1) by simp
  then have "x * 1 \<le> x * real (length ps - k)" using x(2) by (rule mult_left_mono)
  then have "x \<le> x * real (length ps - k)" by (simp only: mult_1_right)
  then have "fge (?raw ! k) (Finite x)" by (simp only: rawk fge.simps)
  moreover have "fge (maximum_accumulate ?raw ! k) (?raw ! k)"
    using assms(1) len holm_raw_prefix_not_NaN[OF assms(1) nn]
    by (intro maximum_accumulate_prefix_ge) simp_all
  ultimately have "fge (maximum_accumulate ?raw ! k) (Finite x)" by (rule fge_trans[rotated])
  then show ?thesis
    unfolding holm_sorted_nth[OF assms(1)] Let_def x(1) using x(3) by (rule cap_ge)
qed

lemma holm_sorted_prefix_mono:
  assumes "k \<le> l" and "l < length ps" and "ps ! (argsort ps ! l) \<noteq> NaN"
  shows "fge (holm_sorted ps ! l) (holm_sorted ps ! k)"
proof -
  let ?raw = "map2 fmul (map (\<lambda>i. ps ! i) (argsort ps))
           (map (\<lambda>k. Finite (real k)) (rev [1..<Suc (length (map (\<lambda>i. ps ! i) (argsort ps)))]))"
  have len: "length ?raw = length ps" by (simp add: length_argsort del: upt_Suc)
  have k: "k < length ps" using assms(1,2) by simp
  have "fge (maximum_accumulate ?raw ! l) (maximum_accumulate ?raw ! k)"
    using assms(1,2) len holm_raw_prefix_not_NaN[OF assms(2,3)]
    by (intro maximum_accumulate_prefix_mono) simp_all
  then show ?thesis
    unfolding holm_sorted_nth[OF assms(2)] holm_sorted_nth[OF k] Let_def by (rule cap_mono)
qed

lemma holm_sorted_NaN:
  assumes "k < length ps" and "ps ! (argsort ps ! k) = NaN"
  shows "holm_sorted ps ! k = NaN"
proof -
  let ?raw = "map2 fmul (map (\<lambda>i. ps ! i) (argsort ps))
           (map (\<lambda>k. Finite (real k)) (rev [1..<Suc (length (map (\<lambda>i. ps ! i) (argsort ps)))]))"
  have len: "length ?raw = length ps" by (simp add: length_argsort del: upt_Suc)
  have "?raw ! k = NaN" unfolding holm_raw_nth[OF assms(1)] assms(2) by simp
  then have "maximum_accumulate ?raw ! k = NaN"
    using assms(1) len by (intro maximum_accumulate_NaN) simp_all
  then show ?thesis unfolding holm_sorted_nth[OF assms(1)] Let_def by simp
qed

lemma argsort_position:
  assumes "i < length ps"
  shows "\<exists>k<length ps. argsort ps ! k = i"
proof -
  have "i \<in> set (argsort ps)" using assms by (simp add: set_argsort)
  then show ?thesis by (auto simp: in_set_conv_nth length_argsort)
qed

lemma multipletests_holm_valid_ge:
  assumes "i < length ps" and "is_probability (ps ! i)"
  shows "fge (multipletests_holm ps ! i) (ps ! i)"
proof -
  obtain k where k: "k < length ps" "argsort ps ! k = i"
    using argsort_position[OF assms(1)] by blast
  show ?thesis
    using holm_sorted_valid_ge[OF k(1)] multipletests_holm_nth[OF k(1)] k(2) assms(2) by simp
qed

lemma multipletests_holm_NaN:
  assumes "i < length ps" and "ps ! i = NaN"
  shows "multipletests_holm ps ! i = NaN"
proof -
  obtain k where k: "k < length ps" "argsort ps ! k = i"
    using argsort_position[OF assms(1)] by blast
  show ?thesis
    using holm_sorted_NaN[OF k(1)] multipletests_holm_nth[OF k(1)] k(2) assms(2) by simp
qed

lemma multipletests_holm_step_mono:
  assumes "k \<le> l" and "l < length ps" and "ps ! (argsort ps ! l) \<noteq> NaN"
  shows "fge (multipletests_holm ps ! (argsort ps ! l)) (multipletests_holm ps ! (argsort ps ! k))"
proof -
  have k: "k < length ps" using assms(1,2) by simp
  show ?thesis
    unfolding multipletests_holm_nth[OF assms(2)] multipletests_holm_nth[OF k]
    using assms by (rule holm_sorted_prefix_mono)
qed

text \<open>
  C6 (as amended): for every group's list of raw p-values, each entry whose raw p-value
  is a number in [0, 1] has a corrected p-value at least as large, whatever the other
  entries are; an entry whose raw p-value is NaN has the corrected p-value NaN; and along
  Holm's step order (\<open>argsort\<close>: ascending raw p-values, NaN last) the raw and the
  corrected p-values never decrease up to any entry that is not NaN.
\<close>

theorem holm_corrected_ge_raw_and_monotone:
  "let ps = p_raw_of g results;
       hs = p_holm_of g (holm_correction results);
       step = argsort ps
   in length hs = length ps \<and>
      (\<forall>i<length ps. is_probability (ps ! i) \<longrightarrow> fge (hs ! i) (ps ! i)) \<and>
      (\<forall>i<length ps. ps ! i = NaN \<longrightarrow> hs ! i = NaN) \<and>
      (\<forall>k l. k \<le> l \<and> l < length ps \<and> ps ! (step ! l) \<noteq> NaN \<longrightarrow>
         fge (ps ! (step ! l)) (ps ! (step ! k)) \<and> fge (hs ! (step ! l)) (hs ! (step ! k)))"
  unfolding Let_def holm_correction_group
  using length_multipletests_holm multipletests_holm_valid_ge multipletests_holm_NaN
    sorted_pvals_ascending multipletests_holm_step_mono
  by auto

theorem holm_corrected_ge_raw_and_monotone_witness:
  "p_raw_of PD example_results_nan = [Finite 0.01, NaN, Finite 0.04] \<and>
   argsort (p_raw_of PD example_results_nan) = [0, 2, 1] \<and>
   p_holm_of PD (holm_correction example_results_nan) = [Finite 0.03, NaN, Finite 0.08] \<and>
   fge (p_holm_of PD (holm_correction example_results_nan) ! 0) (p_raw_of PD example_results_nan ! 0) \<and>
   fge (p_holm_of PD (holm_correction example_results_nan) ! 2) (p_raw_of PD example_results_nan ! 2) \<and>
   p_holm_of PD (holm_correction example_results_nan) ! 1 = NaN \<and>
   fge (p_holm_of PD (holm_correction example_results_nan) ! 2)
       (p_holm_of PD (holm_correction example_results_nan) ! 0)"
proof -
  let ?ps = "p_raw_of PD example_results_nan"
  let ?hs = "p_holm_of PD (holm_correction example_results_nan)"
  have r: "?ps = [Finite 0.01, NaN, Finite 0.04]"
    by (simp add: p_raw_of_def example_results_nan_def example_row_def)
  have a: "argsort ?ps = [0, 2, 1]"
    by (simp add: r argsort_def upt_rec)
  have c: "?hs = [Finite 0.03, NaN, Finite 0.08]"
    by (simp add: holm_eval example_results_nan_def)
  have t: "(\<forall>i<length ?ps. is_probability (?ps ! i) \<longrightarrow> fge (?hs ! i) (?ps ! i)) \<and>
      (\<forall>i<length ?ps. ?ps ! i = NaN \<longrightarrow> ?hs ! i = NaN) \<and>
      (\<forall>k l. k \<le> l \<and> l < length ?ps \<and> ?ps ! (argsort ?ps ! l) \<noteq> NaN \<longrightarrow>
         fge (?ps ! (argsort ?ps ! l)) (?ps ! (argsort ?ps ! k)) \<and>
         fge (?hs ! (argsort ?ps ! l)) (?hs ! (argsort ?ps ! k)))"
    using holm_corrected_ge_raw_and_monotone[of PD example_results_nan]
    unfolding Let_def by blast
  have len: "length ?ps = 3" by (simp add: r)
  have p0: "is_probability (?ps ! 0)" and p2: "is_probability (?ps ! 2)" and n1: "?ps ! 1 = NaN"
    by (simp_all add: r)
  have "fge (?hs ! 0) (?ps ! 0)" "fge (?hs ! 2) (?ps ! 2)" "?hs ! 1 = NaN"
    using t len p0 p2 n1 by simp_all
  moreover have "fge (?hs ! 2) (?hs ! 0)"
  proof -
    have s: "argsort ?ps ! 0 = 0" "argsort ?ps ! 1 = 2" by (simp_all add: a)
    have nn: "?ps ! 2 \<noteq> NaN" by (simp add: r)
    have "(0::nat) \<le> 1 \<and> 1 < length ?ps \<and> ?ps ! (argsort ?ps ! 1) \<noteq> NaN"
      unfolding s using nn len by simp
    then have "fge (?hs ! (argsort ?ps ! 1)) (?hs ! (argsort ?ps ! 0))" using t by blast
    then show ?thesis by (simp only: s)
  qed
  ultimately show ?thesis using r a c by blast
qed

text \<open>
  The claim as stated fails on a group that holds a NaN raw p-value: the corrected value
  of that entry is NaN, and NaN is not greater than or equal to NaN.
\<close>

theorem holm_corrected_ge_raw_counterexample:
  "p_raw_of PD example_results_nan ! 1 = NaN \<and>
   p_holm_of PD (holm_correction example_results_nan) ! 1 = NaN \<and>
   \<not> fge (p_holm_of PD (holm_correction example_results_nan) ! 1)
          (p_raw_of PD example_results_nan ! 1)"
proof -
  have "p_raw_of PD example_results_nan = [Finite 0.01, NaN, Finite 0.04]"
    by (simp add: p_raw_of_def example_results_nan_def example_row_def)
  moreover have "p_holm_of PD (holm_correction example_results_nan) = [Finite 0.03, NaN, Finite 0.08]"
    by (simp add: holm_eval example_results_nan_def)
  ultimately show ?thesis by simp
qed

section \<open>Properties of the effect size\<close>

lemma fdiv_zero_not_finite: "\<not> isfinite (fdiv x (Finite 0))"
  by (cases x) auto

lemma fmul_not_finite: "\<not> isfinite x \<Longrightarrow> \<not> isfinite (fmul x (Finite 100))"
  by (cases x) auto


lemmas exact_eval = exact_mean_def exact_std_def exact_sum_def fsub_def



section \<open>Properties of the locomotion control\<close>

lemma np_sub_error: "np_sub a b = Inl e \<Longrightarrow> e = ValueError"
  by (simp add: np_sub_def split: if_splits)

lemma locomotion_step_empty: "locomotion_step lib [] = Inr None"
  by (simp add: locomotion_step_def)

lemma locomotion_step_row:
  assumes "sub \<noteq> []" and "np_sub (values_of Stim sub) (values_of NoStim sub) = Inr diff"
  shows "locomotion_step lib sub =
     Inr (Some (fst (ttest_rel lib (values_of Stim sub) (values_of NoStim sub)),
                snd (ttest_rel lib (values_of Stim sub) (values_of NoStim sub)),
                fdiv (np_mean lib diff) (np_std lib 1 diff)))"
  using assms by (simp add: locomotion_step_def Let_def split: prod.splits)

lemma locomotion_step_raises:
  assumes "sub \<noteq> []" and "np_sub (values_of Stim sub) (values_of NoStim sub) = Inl e"
  shows "locomotion_step lib sub = Inl ValueError"
  using assms np_sub_error[OF assms(2)]
  by (simp add: locomotion_step_def Let_def split: prod.splits)

lemma locomotion_step_ignores_normality:
  "locomotion_step (lib\<lparr>shapiro := s, wilcoxon := w\<rparr>) sub = locomotion_step lib sub"
  by (simp add: locomotion_step_def Let_def split: prod.splits sum.splits)

lemma locomotion_loop_ignores_normality:
  "locomotion_loop (lib\<lparr>shapiro := s, wilcoxon := w\<rparr>) long_df params acc
     = locomotion_loop lib long_df params acc"
  by (induction params arbitrary: acc)
     (simp_all add: locomotion_step_ignores_normality split: sum.splits option.splits)

text \<open>
  The rows that a completed loop has appended: one for each parameter with a non-empty
  subset, in order, each with the statistic and p-value of \<open>ttest_rel\<close> and with Cohen's
  dz of the differences.
\<close>

lemma locomotion_loop_rows:
  assumes "locomotion_loop lib long_df params acc = Inr rows"
  shows "\<exists>new. rows = acc @ new \<and>
     map fst new = filter (\<lambda>q. subset_of q PD long_df \<noteq> []) params \<and>
     (\<forall>(param, stat, p, dz)\<in>set new.
        (stat, p) = ttest_rel lib (values_of Stim (subset_of param PD long_df))
                      (values_of NoStim (subset_of param PD long_df)) \<and>
        (\<exists>diff. np_sub (values_of Stim (subset_of param PD long_df))
                   (values_of NoStim (subset_of param PD long_df)) = Inr diff \<and>
                dz = fdiv (np_mean lib diff) (np_std lib 1 diff)))"
  using assms
proof (induction params arbitrary: acc)
  case Nil
  then show ?case by simp
next
  case (Cons q params)
  let ?sub = "subset_of q PD long_df"
  show ?case
  proof (cases "?sub = []")
    case True
    then have "locomotion_loop lib long_df params acc = Inr rows"
      using Cons.prems by (simp add: locomotion_step_empty)
    from Cons.IH[OF this] True show ?thesis by auto
  next
    case False
    show ?thesis
    proof (cases "np_sub (values_of Stim ?sub) (values_of NoStim ?sub)")
      case (Inl e)
      then show ?thesis
        using Cons.prems locomotion_step_raises[OF False Inl, of lib] by simp
    next
      case (Inr diff)
      let ?row = "(q, fst (ttest_rel lib (values_of Stim ?sub) (values_of NoStim ?sub)),
                     snd (ttest_rel lib (values_of Stim ?sub) (values_of NoStim ?sub)),
                     fdiv (np_mean lib diff) (np_std lib 1 diff))"
      have "locomotion_loop lib long_df params (acc @ [?row]) = Inr rows"
        using Cons.prems locomotion_step_row[OF False Inr, of lib] by simp
      from Cons.IH[OF this] obtain new where new: "rows = (acc @ [?row]) @ new"
        "map fst new = filter (\<lambda>q. subset_of q PD long_df \<noteq> []) params"
        "\<forall>(param, stat, p, dz)\<in>set new.
          (stat, p) = ttest_rel lib (values_of Stim (subset_of param PD long_df))
                        (values_of NoStim (subset_of param PD long_df)) \<and>
          (\<exists>diff. np_sub (values_of Stim (subset_of param PD long_df))
                     (values_of NoStim (subset_of param PD long_df)) = Inr diff \<and>
                  dz = fdiv (np_mean lib diff) (np_std lib 1 diff))"
        by blast
      show ?thesis
        by (rule exI[of _ "?row # new"]) (use new False Inr in auto)
    qed
  qed
qed

lemma locomotion_loop_completes:
  assumes "\<forall>q\<in>set params. subset_of q PD long_df \<noteq> [] \<longrightarrow>
     (\<exists>diff. np_sub (values_of Stim (subset_of q PD long_df))
                (values_of NoStim (subset_of q PD long_df)) = Inr diff)"
  shows "\<exists>rows. locomotion_loop lib long_df params acc = Inr rows"
  using assms
proof (induction params arbitrary: acc)
  case Nil
  then show ?case by simp
next
  case (Cons q params)
  let ?sub = "subset_of q PD long_df"
  show ?case
  proof (cases "?sub = []")
    case True
    then show ?thesis using Cons by (simp add: locomotion_step_empty)
  next
    case False
    then obtain diff where "np_sub (values_of Stim ?sub) (values_of NoStim ?sub) = Inr diff"
      using Cons.prems by auto
    then show ?thesis
      using Cons locomotion_step_row[OF False, of diff lib] by simp
  qed
qed

lemma locomotion_loop_raises:
  assumes "q \<in> set params" and "subset_of q PD long_df \<noteq> []"
    and "np_sub (values_of Stim (subset_of q PD long_df))
           (values_of NoStim (subset_of q PD long_df)) = Inl e"
  shows "locomotion_loop lib long_df params acc = Inl ValueError"
  using assms(1)
proof (induction params arbitrary: acc)
  case Nil
  then show ?case by simp
next
  case (Cons r params)
  let ?sub = "subset_of r PD long_df"
  show ?case
  proof (cases "?sub = []")
    case True
    then have "r \<noteq> q" using assms(2) by auto
    then show ?thesis using Cons True by (simp add: locomotion_step_empty)
  next
    case False
    show ?thesis
    proof (cases "np_sub (values_of Stim ?sub) (values_of NoStim ?sub)")
      case (Inl e')
      then show ?thesis using locomotion_step_raises[OF False Inl, of lib] by simp
    next
      case (Inr diff)
      then have "r \<noteq> q" using assms(3) by auto
      then show ?thesis
        using Cons locomotion_step_row[OF False Inr, of lib] by simp
    qed
  qed
qed

text \<open>
  C4: on the locomotion-control path, for every input, every row that the loop appends
  carries the statistic and p-value of \<open>ttest_rel\<close> on the two arms of its parameter, and
  there is one row for each parameter with a non-empty PD subset; the run completes
  exactly when the arms of each such parameter can be subtracted elementwise; and the
  outcome does not depend on the normality test or on the Wilcoxon test, whatever they are.
\<close>

theorem locomotion_always_paired_t_test:
  "(\<forall>rows. locomotion_control lib long_df = Inr rows \<longrightarrow>
      map fst rows = filter (\<lambda>param. subset_of param PD long_df \<noteq> []) LOCOMOTION_PARAMS \<and>
      (\<forall>(param, stat, p, dz)\<in>set rows.
         (stat, p) = ttest_rel lib (values_of Stim (subset_of param PD long_df))
                       (values_of NoStim (subset_of param PD long_df)))) \<and>
   ((\<exists>rows. locomotion_control lib long_df = Inr rows) \<longleftrightarrow>
      (\<forall>param\<in>set LOCOMOTION_PARAMS. subset_of param PD long_df \<noteq> [] \<longrightarrow>
         (\<exists>diff. np_sub (values_of Stim (subset_of param PD long_df))
                    (values_of NoStim (subset_of param PD long_df)) = Inr diff))) \<and>
   (\<forall>s w. locomotion_control (lib\<lparr>shapiro := s, wilcoxon := w\<rparr>) long_df
      = locomotion_control lib long_df)"
proof (intro conjI allI impI)
  fix rows assume r: "locomotion_control lib long_df = Inr rows"
  from locomotion_loop_rows[OF r[unfolded locomotion_control_def]]
  show "map fst rows = filter (\<lambda>param. subset_of param PD long_df \<noteq> []) LOCOMOTION_PARAMS"
    and "\<forall>(param, stat, p, dz)\<in>set rows.
         (stat, p) = ttest_rel lib (values_of Stim (subset_of param PD long_df))
                       (values_of NoStim (subset_of param PD long_df))"
    by auto
next
  show "(\<exists>rows. locomotion_control lib long_df = Inr rows) \<longleftrightarrow>
      (\<forall>param\<in>set LOCOMOTION_PARAMS. subset_of param PD long_df \<noteq> [] \<longrightarrow>
         (\<exists>diff. np_sub (values_of Stim (subset_of param PD long_df))
                    (values_of NoStim (subset_of param PD long_df)) = Inr diff))"
  proof
    assume ex: "\<exists>rows. locomotion_control lib long_df = Inr rows"
    show "\<forall>param\<in>set LOCOMOTION_PARAMS. subset_of param PD long_df \<noteq> [] \<longrightarrow>
         (\<exists>diff. np_sub (values_of Stim (subset_of param PD long_df))
                    (values_of NoStim (subset_of param PD long_df)) = Inr diff)"
    proof (intro ballI impI)
      fix param assume p: "param \<in> set LOCOMOTION_PARAMS" "subset_of param PD long_df \<noteq> []"
      show "\<exists>diff. np_sub (values_of Stim (subset_of param PD long_df))
                    (values_of NoStim (subset_of param PD long_df)) = Inr diff"
      proof (cases "np_sub (values_of Stim (subset_of param PD long_df))
                    (values_of NoStim (subset_of param PD long_df))")
        case (Inl e)
        from locomotion_loop_raises[OF p Inl, of lib "[]"] ex show ?thesis
          by (simp add: locomotion_control_def)
      next
        case (Inr diff)
        then show ?thesis by blast
      qed
    qed
  next
    assume "\<forall>param\<in>set LOCOMOTION_PARAMS. subset_of param PD long_df \<noteq> [] \<longrightarrow>
         (\<exists>diff. np_sub (values_of Stim (subset_of param PD long_df))
                    (values_of NoStim (subset_of param PD long_df)) = Inr diff)"
    then show "\<exists>rows. locomotion_control lib long_df = Inr rows"
      unfolding locomotion_control_def by (rule locomotion_loop_completes)
  qed
next
  fix s w
  show "locomotion_control (lib\<lparr>shapiro := s, wilcoxon := w\<rparr>) long_df
      = locomotion_control lib long_df"
    by (simp add: locomotion_control_def locomotion_loop_ignores_normality)
qed

lemmas locomotion_eval =
  locomotion_control_def LOCOMOTION_PARAMS_def locomotion_step_def np_sub_def
  example_lib_def example_lib_nonnormal_def

text \<open>
  In the example the normality test fails: the selector takes the Wilcoxon test on the
  cell, the locomotion loop the t-test. With one intervention value against three
  baseline values the arms broadcast and the row is appended all the same.
\<close>

theorem locomotion_always_paired_t_test_witness:
  "locomotion_control example_lib_nonnormal example_long_df
     = Inr [(''Entries_ClosedArms'', Finite 6, Finite 0.004, Finite 1)] \<and>
   (Finite 6, Finite 0.004)
     = ttest_rel example_lib_nonnormal
         (values_of Stim (subset_of ''Entries_ClosedArms'' PD example_long_df))
         (values_of NoStim (subset_of ''Entries_ClosedArms'' PD example_long_df)) \<and>
   (\<exists>stat p dz. paired_stats example_lib_nonnormal (subset_of ''Entries_ClosedArms'' PD example_long_df)
     = Inr (Some (Wilcoxon_signed_rank, stat, p, dz))) \<and>
   locomotion_control example_lib_nonnormal example_broadcast_df
     = Inr [(''Entries_ClosedArms'', Finite 6, Finite 0.004, Finite 1)]"
proof -
  let ?sub = "subset_of ''Entries_ClosedArms'' PD example_long_df"
  have off: "values_of NoStim ?sub = map Finite [5, 6, 4]"
    and on: "values_of Stim ?sub = map Finite [7, 6, 8]"
    by (simp_all add: example_eval)
  have run: "locomotion_control example_lib_nonnormal example_long_df
     = Inr [(''Entries_ClosedArms'', Finite 6, Finite 0.004, Finite 1)]"
    by (simp add: locomotion_eval example_eval exact_eval)
  have "\<forall>(param, stat, p, dz)\<in>set [(''Entries_ClosedArms'', Finite 6, Finite 0.004, Finite 1)].
         (stat, p) = ttest_rel example_lib_nonnormal
                       (values_of Stim (subset_of param PD example_long_df))
                       (values_of NoStim (subset_of param PD example_long_df))"
    using locomotion_always_paired_t_test[of example_lib_nonnormal example_long_df] run by blast
  then have tt: "(Finite 6, Finite 0.004)
     = ttest_rel example_lib_nonnormal (values_of Stim ?sub) (values_of NoStim ?sub)"
    by simp
  have sel: "\<exists>stat p dz. paired_stats example_lib_nonnormal ?sub
     = Inr (Some (Wilcoxon_signed_rank, stat, p, dz))"
    using paired_stats_equal_length[of ?sub example_lib_nonnormal]
    by (simp add: off on Let_def example_lib_nonnormal_def example_lib_def)
  have bc: "locomotion_control example_lib_nonnormal example_broadcast_df
     = Inr [(''Entries_ClosedArms'', Finite 6, Finite 0.004, Finite 1)]"
    by (simp add: locomotion_eval example_eval exact_eval)
  show ?thesis using run tt sel bc by blast
qed

text \<open>
  C10 (as amended): the locomotion-control loop has no minimum sample size. When the arms
  of every locomotion parameter with a non-empty PD subset can be subtracted elementwise
  (equal lengths, or one arm of length 1), the run completes and each such parameter has
  its row with the statistic and p-value of \<open>ttest_rel\<close> and with Cohen's dz, whatever the
  number of values; where an arm has fewer than 3 values, \<open>paired_stats\<close> on the same
  data returns None.
\<close>

theorem locomotion_no_minimum_sample_size:
  assumes "param \<in> set LOCOMOTION_PARAMS" and "subset_of param PD long_df \<noteq> []"
    and "\<forall>q\<in>set LOCOMOTION_PARAMS. subset_of q PD long_df \<noteq> [] \<longrightarrow>
       (\<exists>diff. np_sub (values_of Stim (subset_of q PD long_df))
                  (values_of NoStim (subset_of q PD long_df)) = Inr diff)"
  shows "\<exists>rows diff.
     locomotion_control lib long_df = Inr rows \<and>
     np_sub (values_of Stim (subset_of param PD long_df))
       (values_of NoStim (subset_of param PD long_df)) = Inr diff \<and>
     (param,
      fst (ttest_rel lib (values_of Stim (subset_of param PD long_df))
             (values_of NoStim (subset_of param PD long_df))),
      snd (ttest_rel lib (values_of Stim (subset_of param PD long_df))
             (values_of NoStim (subset_of param PD long_df))),
      fdiv (np_mean lib diff) (np_std lib 1 diff)) \<in> set rows \<and>
     (length (values_of NoStim (subset_of param PD long_df)) < 3 \<or>
      length (values_of Stim (subset_of param PD long_df)) < 3 \<longrightarrow>
        paired_stats lib (subset_of param PD long_df) = Inr None)"
proof -
  let ?on = "values_of Stim (subset_of param PD long_df)"
  let ?off = "values_of NoStim (subset_of param PD long_df)"
  obtain rows where rows: "locomotion_loop lib long_df LOCOMOTION_PARAMS [] = Inr rows"
    using locomotion_loop_completes[OF assms(3)] by blast
  obtain diff where diff: "np_sub ?on ?off = Inr diff"
    using assms by blast
  from locomotion_loop_rows[OF rows]
  have names: "map fst rows = filter (\<lambda>q. subset_of q PD long_df \<noteq> []) LOCOMOTION_PARAMS"
    and each: "\<forall>(q, stat, p, dz)\<in>set rows.
        (stat, p) = ttest_rel lib (values_of Stim (subset_of q PD long_df))
                      (values_of NoStim (subset_of q PD long_df)) \<and>
        (\<exists>diff. np_sub (values_of Stim (subset_of q PD long_df))
                   (values_of NoStim (subset_of q PD long_df)) = Inr diff \<and>
                dz = fdiv (np_mean lib diff) (np_std lib 1 diff))"
    by auto
  have "param \<in> set (map fst rows)" using assms(1,2) by (simp add: names)
  then obtain stat p dz where row: "(param, stat, p, dz) \<in> set rows" by auto
  with each have "(stat, p) = ttest_rel lib ?on ?off"
    and "\<exists>d. np_sub ?on ?off = Inr d \<and> dz = fdiv (np_mean lib d) (np_std lib 1 d)"
    by auto
  with diff have "stat = fst (ttest_rel lib ?on ?off)" "p = snd (ttest_rel lib ?on ?off)"
    "dz = fdiv (np_mean lib diff) (np_std lib 1 diff)"
    by (auto dest: arg_cong[of _ _ fst] arg_cong[of _ _ snd])
  with row have "(param, fst (ttest_rel lib ?on ?off), snd (ttest_rel lib ?on ?off),
      fdiv (np_mean lib diff) (np_std lib 1 diff)) \<in> set rows" by simp
  moreover have "length ?off < 3 \<or> length ?on < 3 \<longrightarrow>
        paired_stats lib (subset_of param PD long_df) = Inr None"
    by (auto simp: paired_stats_def Let_def)
  ultimately show ?thesis using rows diff unfolding locomotion_control_def by blast
qed

theorem locomotion_no_minimum_sample_size_witness:
  "''Entries_ClosedArms'' \<in> set LOCOMOTION_PARAMS \<and>
   subset_of ''Entries_ClosedArms'' PD example_small_df \<noteq> [] \<and>
   values_of NoStim (subset_of ''Entries_ClosedArms'' PD example_small_df) = [Finite 5, Finite 6] \<and>
   values_of Stim (subset_of ''Entries_ClosedArms'' PD example_small_df) = [Finite 7, Finite 6] \<and>
   locomotion_control example_lib example_small_df
     = Inr [(''Entries_ClosedArms'', Finite 6, Finite 0.004,
             fdiv (exact_mean [Finite 2, Finite 0]) (exact_std 1 [Finite 2, Finite 0]))] \<and>
   paired_stats example_lib (subset_of ''Entries_ClosedArms'' PD example_small_df) = Inr None"
proof -
  let ?sub = "subset_of ''Entries_ClosedArms'' PD example_small_df"
  have p: "''Entries_ClosedArms'' \<in> set LOCOMOTION_PARAMS"
    by (simp add: LOCOMOTION_PARAMS_def)
  have ne: "?sub \<noteq> []"
    and off: "values_of NoStim ?sub = [Finite 5, Finite 6]"
    and on: "values_of Stim ?sub = [Finite 7, Finite 6]"
    by (simp_all add: example_eval)
  have other: "subset_of ''MeanSpeed_Overall_cm/s'' PD example_small_df = []"
    by (simp add: example_eval)
  have all: "\<forall>q\<in>set LOCOMOTION_PARAMS. subset_of q PD example_small_df \<noteq> [] \<longrightarrow>
       (\<exists>diff. np_sub (values_of Stim (subset_of q PD example_small_df))
                  (values_of NoStim (subset_of q PD example_small_df)) = Inr diff)"
    by (simp add: LOCOMOTION_PARAMS_def other off on np_sub_def)
  have run: "locomotion_control example_lib example_small_df
     = Inr [(''Entries_ClosedArms'', Finite 6, Finite 0.004,
             fdiv (exact_mean [Finite 2, Finite 0]) (exact_std 1 [Finite 2, Finite 0]))]"
    by (simp add: locomotion_control_def LOCOMOTION_PARAMS_def locomotion_step_def other off on ne
        np_sub_def example_lib_def fsub_def)
  have "paired_stats example_lib ?sub = Inr None"
    using locomotion_no_minimum_sample_size[OF p ne all, of example_lib] by (auto simp: off)
  then show ?thesis using p ne off on run by blast
qed

text \<open>
  The claim as stated fails where the arms cannot be subtracted: with three baseline
  values and two intervention values the subset is non-empty and has fewer than 3 paired
  values, and no t-test row and no Cohen's dz result; the run raises.
\<close>

theorem locomotion_no_minimum_sample_size_counterexample:
  "''Entries_ClosedArms'' \<in> set LOCOMOTION_PARAMS \<and>
   subset_of ''Entries_ClosedArms'' PD example_missing_stim_df \<noteq> [] \<and>
   length (values_of NoStim (subset_of ''Entries_ClosedArms'' PD example_missing_stim_df)) = 3 \<and>
   length (values_of Stim (subset_of ''Entries_ClosedArms'' PD example_missing_stim_df)) = 2 \<and>
   locomotion_step example_lib (subset_of ''Entries_ClosedArms'' PD example_missing_stim_df)
     = Inl ValueError \<and>
   locomotion_control example_lib example_missing_stim_df = Inl ValueError"
  by (simp add: locomotion_eval example_eval)

section \<open>Properties of the column parser\<close>

lemma split_first_append:
  "CHR ''_'' \<notin> set s \<Longrightarrow> split_first (s @ CHR ''_'' # rest) = s"
  by (auto simp: split_first_def takeWhile_tail)

lemma parse_column_subject:
  assumes "parse_column col = Some (subject, g, c)"
  shows "subject = split_first (strip_noise col)"
  using assms by (auto simp: parse_column_def Let_def split: if_splits)

lemma parse_column_underscore_prefix:
  assumes "strip_noise col = pre @ CHR ''_'' # rest" and "pre = ''PD'' \<or> pre = ''CO''"
    and "contains (strip_noise col) ''Stim''"
  shows "parse_column col =
     Some (pre, (if pre = ''PD'' then PD else Control),
           (if contains (strip_noise col) ''NoStim'' then NoStim else Stim))"
  using assms by (auto simp: parse_column_def Let_def split_first_def)

text \<open>
  C8: two column names whose stripped form is \<open>PD_...\<close> (or both \<open>CO_...\<close>) and that name
  a condition parse to the same subject, the prefix itself; in general the subject is the
  text before the first underscore, so \<open>PD1_Stim\<close> and \<open>PD2_Stim\<close> give the distinct
  subjects \<open>PD1\<close> and \<open>PD2\<close>.
\<close>

theorem parse_column_subject_before_first_underscore:
  assumes "strip_noise col1 = pre @ CHR ''_'' # rest1"
    and "strip_noise col2 = pre @ CHR ''_'' # rest2"
    and "pre = ''PD'' \<or> pre = ''CO''"
    and "contains (strip_noise col1) ''Stim''" and "contains (strip_noise col2) ''Stim''"
  shows "(\<exists>c1 c2. parse_column col1 = Some (pre, (if pre = ''PD'' then PD else Control), c1) \<and>
                  parse_column col2 = Some (pre, (if pre = ''PD'' then PD else Control), c2)) \<and>
     (\<forall>col s rest subject g c.
        strip_noise col = s @ CHR ''_'' # rest \<and> CHR ''_'' \<notin> set s \<and>
        parse_column col = Some (subject, g, c) \<longrightarrow> subject = s) \<and>
     parse_column ''PD1_Stim'' = Some (''PD1'', PD, Stim) \<and>
     parse_column ''PD2_Stim'' = Some (''PD2'', PD, Stim)"
proof -
  have "\<exists>c1 c2. parse_column col1 = Some (pre, (if pre = ''PD'' then PD else Control), c1) \<and>
                  parse_column col2 = Some (pre, (if pre = ''PD'' then PD else Control), c2)"
    using parse_column_underscore_prefix[OF assms(1) assms(3) assms(4)]
      parse_column_underscore_prefix[OF assms(2) assms(3) assms(5)] by blast
  moreover have "\<forall>col s rest subject g c.
        strip_noise col = s @ CHR ''_'' # rest \<and> CHR ''_'' \<notin> set s \<and>
        parse_column col = Some (subject, g, c) \<longrightarrow> subject = s"
    using parse_column_subject split_first_append by metis
  moreover have "parse_column ''PD1_Stim'' = Some (''PD1'', PD, Stim)"
    "parse_column ''PD2_Stim'' = Some (''PD2'', PD, Stim)"
    by (simp_all add: parse_column_def strip_noise_def split_first_def)
  ultimately show ?thesis by blast
qed

theorem parse_column_subject_before_first_underscore_witness:
  "strip_noise ''PD_1_NoStim'' = ''PD'' @ CHR ''_'' # ''1_NoStim'' \<and>
   strip_noise ''PD_2_Stim'' = ''PD'' @ CHR ''_'' # ''2_Stim'' \<and>
   contains (strip_noise ''PD_1_NoStim'') ''Stim'' \<and> contains (strip_noise ''PD_2_Stim'') ''Stim'' \<and>
   parse_column ''PD_1_NoStim'' = Some (''PD'', PD, NoStim) \<and>
   parse_column ''PD_2_Stim'' = Some (''PD'', PD, Stim) \<and>
   parse_column ''PD1_Stim'' = Some (''PD1'', PD, Stim) \<and>
   parse_column ''PD2_Stim'' = Some (''PD2'', PD, Stim)"
proof -
  have h: "strip_noise ''PD_1_NoStim'' = ''PD'' @ CHR ''_'' # ''1_NoStim''"
    "strip_noise ''PD_2_Stim'' = ''PD'' @ CHR ''_'' # ''2_Stim''"
    "''PD'' = ''PD'' \<or> ''PD'' = ''CO''"
    "contains (strip_noise ''PD_1_NoStim'') ''Stim''" "contains (strip_noise ''PD_2_Stim'') ''Stim''"
    by (simp_all add: strip_noise_def)
  have c: "parse_column ''PD_1_NoStim'' = Some (''PD'', PD, NoStim)"
    "parse_column ''PD_2_Stim'' = Some (''PD'', PD, Stim)"
    by (simp_all add: parse_column_def strip_noise_def split_first_def)
  show ?thesis
    using parse_column_subject_before_first_underscore[OF h] h c by simp
qed

section \<open>Properties of the within-subject table\<close>

lemma within_subject_step_columns:
  assumes "temp \<noteq> []"
    and "wide_column (pivot_table temp) Stim = Some stim"
    and "wide_column (pivot_table temp) NoStim = Some nostim"
  shows "within_subject_step pivot_table param temp =
     Inr (Some \<lparr>ws_Subject = wide_Subject (pivot_table temp), ws_NoStim = nostim, ws_Stim = stim,
                 Delta_Stim_minus_NoStim = map2 fsub stim nostim,
                 Percent_Change = map (\<lambda>x. fmul x (Finite 100))
                                    (map2 fdiv (map2 fsub stim nostim) nostim),
                 ws_Parameter = param\<rparr>)"
  using assms by (simp add: within_subject_step_def Let_def)

lemma fsub_Finite: "fsub (Finite a) (Finite b) = Finite (a - b)"
  by (simp add: fsub_def)

text \<open>
  C7: when the pivot has both condition columns, the step returns a table (no exception,
  whatever the baselines are) in which every row has Delta = Stim - NoStim and
  Percent_Change = Delta / NoStim * 100; for finite values with a nonzero baseline that is
  the number \<open>(a - b) / b * 100\<close>, and for a baseline 0 it is an infinity or NaN.
\<close>

theorem within_subject_delta_and_percent_change:
  assumes "temp \<noteq> []"
    and "wide_column (pivot_table temp) Stim = Some stim"
    and "wide_column (pivot_table temp) NoStim = Some nostim"
    and "length stim = length nostim"
  shows "\<exists>tbl. within_subject_step pivot_table param temp = Inr (Some tbl) \<and>
     ws_NoStim tbl = nostim \<and> ws_Stim tbl = stim \<and>
     length (Delta_Stim_minus_NoStim tbl) = length nostim \<and>
     length (Percent_Change tbl) = length nostim \<and>
     (\<forall>i<length nostim.
        Delta_Stim_minus_NoStim tbl ! i = fsub (stim ! i) (nostim ! i) \<and>
        Percent_Change tbl ! i
          = fmul (fdiv (Delta_Stim_minus_NoStim tbl ! i) (nostim ! i)) (Finite 100) \<and>
        (nostim ! i = Finite 0 \<longrightarrow> \<not> isfinite (Percent_Change tbl ! i)) \<and>
        (\<forall>a b. stim ! i = Finite a \<and> nostim ! i = Finite b \<longrightarrow>
           Delta_Stim_minus_NoStim tbl ! i = Finite (a - b) \<and>
           (b \<noteq> 0 \<longrightarrow> Percent_Change tbl ! i = Finite ((a - b) / b * 100))))"
  unfolding within_subject_step_columns[where pivot_table = pivot_table and temp = temp, OF assms(1,2,3)]
  using assms(4) by (auto simp: fdiv_zero_not_finite fmul_not_finite fsub_Finite)

theorem within_subject_delta_and_percent_change_witness:
  "example_zero_baseline_df \<noteq> [] \<and>
   wide_column (example_pivot example_zero_baseline_df) Stim = Some [Finite 2, Finite 5] \<and>
   wide_column (example_pivot example_zero_baseline_df) NoStim = Some [Finite 0, Finite 4] \<and>
   (\<exists>tbl. within_subject_step example_pivot ''Time_OpenArms'' example_zero_baseline_df = Inr (Some tbl) \<and>
      Delta_Stim_minus_NoStim tbl = [Finite 2, Finite 1] \<and>
      Percent_Change tbl = [PosInf, Finite 25])"
proof -
  have ne: "example_zero_baseline_df \<noteq> []" by (simp add: example_eval)
  have cols: "wide_column (example_pivot example_zero_baseline_df) Stim = Some [Finite 2, Finite 5]"
    "wide_column (example_pivot example_zero_baseline_df) NoStim = Some [Finite 0, Finite 4]"
    by (simp_all add: example_pivot_def Let_def example_eval exact_eval)
  have len: "length [Finite 2, Finite 5] = length [Finite 0, Finite 4]" by simp
  obtain tbl where t: "within_subject_step example_pivot ''Time_OpenArms'' example_zero_baseline_df = Inr (Some tbl)"
    and "length (Delta_Stim_minus_NoStim tbl) = 2" "length (Percent_Change tbl) = 2"
    and "\<forall>i<2. Delta_Stim_minus_NoStim tbl ! i = fsub ([Finite 2, Finite 5] ! i) ([Finite 0, Finite 4] ! i) \<and>
        Percent_Change tbl ! i
          = fmul (fdiv (Delta_Stim_minus_NoStim tbl ! i) ([Finite 0, Finite 4] ! i)) (Finite 100)"
    using within_subject_delta_and_percent_change[where pivot_table = example_pivot
        and temp = example_zero_baseline_df and param = "''Time_OpenArms''", OF ne cols len]
    by auto
  then have "Delta_Stim_minus_NoStim tbl = [Finite 2, Finite 1] \<and> Percent_Change tbl = [PosInf, Finite 25]"
    by (auto simp: fsub_def list_eq_iff_nth_eq less_Suc_eq numeral_2_eq_2)
  with t ne cols show ?thesis by blast
qed

end
